theory Spec2Isabelle
  imports Main "HOL-Library.Multiset"
begin

section \<open>Python values used by qualifier.py\<close>

text \<open>
  The exceptions the module can raise. \<open>ValueError\<close> carries its message;
  \<open>ZeroDivisionError\<close> comes from \<open>//\<close> and \<open>%\<close>, \<open>IndexError\<close> from list
  indexing, \<open>FileNotFoundError\<close> from \<open>Image.open\<close>.
\<close>

datatype error = ValueError string | ZeroDivisionError | IndexError | FileNotFoundError

text \<open>
  Python's \<open>//\<close> and \<open>%\<close> on unbounded integers: floored, the remainder takes the
  sign of the divisor (as \<open>div\<close> and \<open>mod\<close> on \<open>int\<close> do), and a zero divisor raises.
\<close>

definition py_floordiv :: "int \<Rightarrow> int \<Rightarrow> error + int" where
  "py_floordiv a b = (if b = 0 then Inl ZeroDivisionError else Inr (a div b))"

definition py_mod :: "int \<Rightarrow> int \<Rightarrow> error + int" where
  "py_mod a b = (if b = 0 then Inl ZeroDivisionError else Inr (a mod b))"

text \<open>\<open>range(n)\<close>: the integers \<open>0, ..., n - 1\<close>, empty when \<open>n \<le> 0\<close>.\<close>

definition py_range :: "int \<Rightarrow> int list" where
  "py_range n = map int [0..<nat n]"

text \<open>\<open>xs[i]\<close>: a negative index counts from the end, an index out of range raises.\<close>

definition py_index :: "'a list \<Rightarrow> int \<Rightarrow> error + 'a" where
  "py_index xs i =
     (if 0 \<le> i \<and> i < int (length xs) then Inr (xs ! nat i)
      else if i < 0 \<and> - int (length xs) \<le> i then Inr (xs ! nat (int (length xs) + i))
      else Inl IndexError)"

text \<open>Sequencing: an exception of the first step skips the rest.\<close>

definition and_then :: "error + 'a \<Rightarrow> ('a \<Rightarrow> error + 'b) \<Rightarrow> error + 'b" where
  "and_then m f = (case m of Inl e \<Rightarrow> Inl e | Inr a \<Rightarrow> f a)"

text \<open>A \<open>for\<close> loop whose body may raise: the first exception ends the loop.\<close>

fun for_loop :: "'a list \<Rightarrow> ('a \<Rightarrow> 's \<Rightarrow> error + 's) \<Rightarrow> 's \<Rightarrow> error + 's" where
  "for_loop [] body s = Inr s"
| "for_loop (x # xs) body s =
     (case body x s of Inl e \<Rightarrow> Inl e | Inr s' \<Rightarrow> for_loop xs body s')"

section \<open>The permutation validator\<close>

text \<open>
  \<^verbatim>\<open>
  def is_unique(collection):
      collection = sorted(collection)
      return all(i == el for i, el in enumerate(collection))
  \<close>
\<close>

definition is_unique :: "int list \<Rightarrow> bool" where
  "is_unique collection =
     (let collection = sort collection
      in list_all (\<lambda>(i, el). int i = el) (enumerate 0 collection))"

section \<open>The geometry validator\<close>

text \<open>
  \<^verbatim>\<open>
  def valid_input(image_size, tile_size, ordering):
      image_width, image_height = image_size
      tile_width, tile_height = tile_size
      tile_rows = image_height // tile_height
      tile_cols = image_width // tile_width
      return (image_width % tile_width == 0
              and image_height % tile_height == 0
              and len(ordering) == tile_rows * tile_cols
              and is_unique(ordering))
  \<close>
  The two divisions run first, in this order; \<open>and\<close> stops at the first false operand.
\<close>

definition valid_input :: "int \<times> int \<Rightarrow> int \<times> int \<Rightarrow> int list \<Rightarrow> error + bool" where
  "valid_input image_size tile_size ordering' =
     (case image_size of (image_width, image_height) \<Rightarrow>
     (case tile_size of (tile_width, tile_height) \<Rightarrow>
      and_then (py_floordiv image_height tile_height) (\<lambda>tile_rows.
      and_then (py_floordiv image_width tile_width) (\<lambda>tile_cols.
      and_then (py_mod image_width tile_width) (\<lambda>rem_w.
      if rem_w \<noteq> 0 then Inr False else
      and_then (py_mod image_height tile_height) (\<lambda>rem_h.
      if rem_h \<noteq> 0 then Inr False else
      if int (length ordering') \<noteq> tile_rows * tile_cols then Inr False else
      Inr (is_unique ordering')))))))"

section \<open>The image codec (PIL), as the module uses it\<close>

text \<open>
  An image buffer: a colour mode, a size and a pixel store addressed by column and row.
  Only the pixels inside \<open>[0, width) \<times> [0, height)\<close> are the image; the functions below
  never read the store outside of them. \<open>isize\<close> is PIL's \<open>image.size\<close>, a pair of Python
  integers.
\<close>

record 'p image =
  mode :: string
  width :: nat
  height :: nat
  pix :: "int \<Rightarrow> int \<Rightarrow> 'p"

definition isize :: "'p image \<Rightarrow> int \<times> int" where
  "isize im = (int (width im), int (height im))"

text \<open>\<open>Image.new(mode, size)\<close>: a fresh buffer, every pixel zero.\<close>

definition Image_new :: "string \<Rightarrow> int \<times> int \<Rightarrow> ('p::zero) image" where
  "Image_new m sz =
     \<lparr>mode = m, width = nat (fst sz), height = nat (snd sz), pix = (\<lambda>x y. 0)\<rparr>"

text \<open>
  \<open>image.crop((left, upper, right, lower))\<close>: a new image of the box's size, holding the
  source's pixels of the half-open box; what the box covers outside the source is zero,
  and a box whose right or lower edge is not beyond its left or upper edge is empty.
\<close>

definition crop :: "('p::zero) image \<Rightarrow> int \<times> int \<times> int \<times> int \<Rightarrow> 'p image" where
  "crop im box =
     (case box of (left, upper, right, lower) \<Rightarrow>
        \<lparr>mode = mode im,
         width = nat (right - left),
         height = nat (lower - upper),
         pix = (\<lambda>x y. if 0 \<le> left + x \<and> left + x < int (width im) \<and>
                            0 \<le> upper + y \<and> upper + y < int (height im)
                         then pix im (left + x) (upper + y) else 0)\<rparr>)"

text \<open>
  \<open>dst.paste(im, (x0, y0))\<close>: writes \<open>im\<close> into \<open>dst\<close> with its top-left corner at
  \<open>(x0, y0)\<close>, clipped to \<open>dst\<close>; mode and size of \<open>dst\<close> stay.
\<close>

definition paste :: "'p image \<Rightarrow> 'p image \<Rightarrow> int \<times> int \<Rightarrow> 'p image" where
  "paste dst im pos =
     (case pos of (x0, y0) \<Rightarrow>
        dst\<lparr>pix := (\<lambda>x y. if x0 \<le> x \<and> x < x0 + int (width im) \<and>
                              y0 \<le> y \<and> y < y0 + int (height im) \<and>
                              0 \<le> x \<and> x < int (width dst) \<and> 0 \<le> y \<and> y < int (height dst)
                           then pix im (x - x0) (y - y0) else pix dst x y)\<rparr>)"

text \<open>Files: \<open>Image.open\<close> reads a path, \<open>save\<close> writes one.\<close>

type_synonym 'p filesystem = "string \<Rightarrow> 'p image option"

definition Image_open :: "'p filesystem \<Rightarrow> string \<Rightarrow> error + 'p image" where
  "Image_open fs path = (case fs path of None \<Rightarrow> Inl FileNotFoundError | Some im \<Rightarrow> Inr im)"

definition save :: "'p filesystem \<Rightarrow> 'p image \<Rightarrow> string \<Rightarrow> 'p filesystem" where
  "save fs im path = fs(path \<mapsto> im)"

section \<open>The tile extractor\<close>

text \<open>
  \<^verbatim>\<open>
  def get_tile(image, tile_size, i, j):
      tile_width, tile_height = tile_size
      x, y = tile_width * i, tile_height * j
      return image.crop((x, y, x + tile_width, y + tile_height))
  \<close>
\<close>

definition get_tile :: "('p::zero) image \<Rightarrow> int \<times> int \<Rightarrow> int \<Rightarrow> int \<Rightarrow> 'p image" where
  "get_tile im tile_size i j =
     (case tile_size of (tile_width, tile_height) \<Rightarrow>
        let x = tile_width * i; y = tile_height * j
        in crop im (x, y, x + tile_width, y + tile_height))"

section \<open>The rearrangement\<close>

text \<open>
  The three loops of \<open>rearrange_tiles\<close>, each under its own name. First
  \<^verbatim>\<open>
  for i in range(tile_rows):
      for j in range(tile_cols):
          tile = get_tile(image, tile_size, j, i)
          tiles.append(tile)
  \<close>
\<close>

definition extract_tiles :: "('p::zero) image \<Rightarrow> int \<times> int \<Rightarrow> int \<Rightarrow> int \<Rightarrow> 'p image list" where
  "extract_tiles im tile_size tile_rows tile_cols =
     fold (\<lambda>i tiles. fold (\<lambda>j tiles. tiles @ [get_tile im tile_size j i])
                          (py_range tile_cols) tiles)
          (py_range tile_rows) []"

text \<open>
  \<^verbatim>\<open>
  for i in range(len(tiles)):
      out_tiles.append(tiles[ordering[i]])
  \<close>
\<close>

definition build_out_tiles :: "'a list \<Rightarrow> int list \<Rightarrow> error + 'a list" where
  "build_out_tiles tiles ordering' =
     for_loop (py_range (int (length tiles)))
       (\<lambda>i out_tiles.
          and_then (py_index ordering' i) (\<lambda>v.
          and_then (py_index tiles v) (\<lambda>t.
          Inr (out_tiles @ [t]))))
       []"

text \<open>
  \<^verbatim>\<open>
  for i in range(tile_rows):
      for j in range(tile_cols):
          out_image.paste(out_tiles[i * tile_cols + j], (tile_width * j, tile_height * i))
  \<close>
\<close>

definition paste_tiles ::
  "'p image \<Rightarrow> 'p image list \<Rightarrow> int \<times> int \<Rightarrow> int \<Rightarrow> int \<Rightarrow> error + 'p image" where
  "paste_tiles out_image out_tiles tile_size tile_rows tile_cols =
     (case tile_size of (tile_width, tile_height) \<Rightarrow>
        for_loop (py_range tile_rows)
          (\<lambda>i out_image.
             for_loop (py_range tile_cols)
               (\<lambda>j out_image.
                  and_then (py_index out_tiles (i * tile_cols + j)) (\<lambda>t.
                  Inr (paste out_image t (tile_width * j, tile_height * i))))
               out_image)
          out_image)"

text \<open>
  The body of the \<open>with\<close> block of \<open>rearrange_tiles\<close>, from \<open>image_size = image.size\<close>
  to the last paste: the two divisions, the validation and its \<open>ValueError\<close>, the loops.
  It returns the filled \<open>out_image\<close>.
\<close>

definition invalid_message :: string where
  "invalid_message = ''The tile size or ordering are not valid for the given image''"

definition rearrange_body ::
  "('p::zero) image \<Rightarrow> 'p image \<Rightarrow> int \<times> int \<Rightarrow> int list \<Rightarrow> error + 'p image" where
  "rearrange_body im out_image tile_size ordering' =
     (let image_size = isize im in
     (case image_size of (image_width, image_height) \<Rightarrow>
     (case tile_size of (tile_width, tile_height) \<Rightarrow>
      and_then (py_floordiv image_height tile_height) (\<lambda>tile_rows.
      and_then (py_floordiv image_width tile_width) (\<lambda>tile_cols.
      and_then (valid_input image_size tile_size ordering') (\<lambda>ok.
      if \<not> ok then Inl (ValueError invalid_message) else
      let tiles = extract_tiles im tile_size tile_rows tile_cols in
      and_then (build_out_tiles tiles ordering') (\<lambda>out_tiles.
      paste_tiles out_image out_tiles tile_size tile_rows tile_cols)))))))"

text \<open>
  \<open>rearrange_tiles\<close> itself: open the source, allocate \<open>out_image\<close> with the source's
  mode and size, run the body, save. An exception leaves the files as they were.
\<close>

definition rearrange_tiles ::
  "('p::zero) filesystem \<Rightarrow> string \<Rightarrow> int \<times> int \<Rightarrow> int list \<Rightarrow> string
     \<Rightarrow> (error + unit) \<times> 'p filesystem" where
  "rearrange_tiles fs image_path tile_size ordering' out_path =
     (case Image_open fs image_path of
        Inl e \<Rightarrow> (Inl e, fs)
      | Inr im \<Rightarrow>
          (let out_image = Image_new (mode im) (isize im) in
           (case rearrange_body im out_image tile_size ordering' of
              Inl e \<Rightarrow> (Inl e, fs)
            | Inr out_image' \<Rightarrow> (Inr (), save fs out_image' out_path))))"

section \<open>Notions of the specification\<close>



text \<open>A 4x4 single-band image with sixteen different pixels, and a file holding it.\<close>

definition img0 :: "int image" where
  "img0 = \<lparr>mode = ''L'', width = 4, height = 4, pix = (\<lambda>x y. 1 + x + 4 * y)\<rparr>"

definition fs0 :: "int filesystem" where
  "fs0 = [''in.png'' \<mapsto> img0]"


section \<open>Properties of the permutation validator\<close>

lemma enumerate_all_iff:
  "list_all (\<lambda>(i, el). int i = el) (enumerate n xs) \<longleftrightarrow> xs = map int [n..<n + length xs]"
proof (induction xs arbitrary: n)
  case Nil
  show ?case by simp
next
  case (Cons x xs)
  have "[n..<n + length (x # xs)] = n # [Suc n..<Suc n + length xs]"
    using upt_conv_Cons [of n "n + length (x # xs)"] by simp
  then show ?case using Cons.IH [of "Suc n"] by auto
qed

lemma is_unique_sort: "is_unique L \<longleftrightarrow> sort L = map int [0..<length L]"
  using enumerate_all_iff [of 0 "sort L"] by (simp add: is_unique_def)

lemma sorted_range: "sorted (map int [0..<n])"
  by (simp add: sorted_iff_nth_mono)

lemma is_unique_mset: "is_unique L \<longleftrightarrow> mset L = mset (map int [0..<length L])"
proof
  assume "is_unique L"
  then have "mset (sort L) = mset (map int [0..<length L])"
    by (simp add: is_unique_sort)
  then show "mset L = mset (map int [0..<length L])" by simp
next
  assume h: "mset L = mset (map int [0..<length L])"
  have "sort L = map int [0..<length L]"
    by (rule properties_for_sort [OF h [symmetric] sorted_range])
  then show "is_unique L" by (simp add: is_unique_sort)
qed

lemma is_unique_set: "is_unique L \<Longrightarrow> set L = int ` {0..<length L}"
proof -
  assume "is_unique L"
  then have "set (sort L) = set (map int [0..<length L])" by (simp add: is_unique_sort)
  then show ?thesis by simp
qed

lemma is_unique_distinct: "is_unique L \<Longrightarrow> distinct L"
proof -
  assume "is_unique L"
  then have "mset L = mset (map int [0..<length L])" by (simp add: is_unique_mset)
  moreover have "distinct (map int [0..<length L])" by (simp add: distinct_map)
  ultimately show ?thesis by (metis mset_eq_imp_distinct_iff)
qed

text \<open>
  Claim C4. For every list \<open>L\<close> of integers, \<open>is_unique L\<close> holds exactly when sorting
  \<open>L\<close> gives \<open>0, 1, ..., len(L) - 1\<close>; the empty list is accepted, and a list with a
  negative value or a value of at least \<open>len(L)\<close> is rejected.
\<close>

theorem is_unique_spec:
  "(is_unique L \<longleftrightarrow> sort L = map int [0..<length L]) \<and> is_unique [] \<and>
   ((\<exists>x \<in> set L. x < 0 \<or> int (length L) \<le> x) \<longrightarrow> \<not> is_unique L)"
proof (intro conjI impI)
  show "is_unique L \<longleftrightarrow> sort L = map int [0..<length L]" by (rule is_unique_sort)
  show "is_unique []" by (simp add: is_unique_def)
  assume "\<exists>x \<in> set L. x < 0 \<or> int (length L) \<le> x"
  then obtain x where x: "x \<in> set L" "x < 0 \<or> int (length L) \<le> x" by blast
  show "\<not> is_unique L"
  proof
    assume "is_unique L"
    then have "set L = int ` {0..<length L}" by (rule is_unique_set)
    with x show False by auto
  qed
qed

theorem is_unique_spec_witness:
  "is_unique [2, 0, 1] \<and> sort [2, 0, 1 :: int] = [0, 1, 2] \<and>
   \<not> is_unique [0, 3, 1] \<and> \<not> is_unique [0, -1]"
  using is_unique_spec [of "[2, 0, 1]"] is_unique_spec [of "[0, 3, 1]"]
    is_unique_spec [of "[0, -1]"]
  by (simp add: upt_rec)

section \<open>Properties of the geometry validator\<close>

lemma valid_input_zero:
  "tw = 0 \<or> th = 0 \<Longrightarrow> valid_input (W, H) (tw, th) ordering' = Inl ZeroDivisionError"
  by (auto simp: valid_input_def and_then_def py_floordiv_def py_mod_def)

lemma valid_input_nonzero:
  "tw \<noteq> 0 \<Longrightarrow> th \<noteq> 0 \<Longrightarrow>
   valid_input (W, H) (tw, th) ordering' =
     Inr (W mod tw = 0 \<and> H mod th = 0 \<and>
          int (length ordering') = (H div th) * (W div tw) \<and> is_unique ordering')"
  by (simp add: valid_input_def and_then_def py_floordiv_def py_mod_def)

lemma valid_input_True_iff:
  "valid_input (W, H) (tw, th) ordering' = Inr True \<longleftrightarrow>
     tw \<noteq> 0 \<and> th \<noteq> 0 \<and> W mod tw = 0 \<and> H mod th = 0 \<and>
     int (length ordering') = (H div th) * (W div tw) \<and> is_unique ordering'"
proof (cases "tw = 0 \<or> th = 0")
  case True
  then show ?thesis using valid_input_zero [OF True, of W H ordering'] by auto
next
  case False
  then show ?thesis by (simp add: valid_input_nonzero)
qed

lemma is_unique_perm:
  "int (length L) = N \<Longrightarrow> is_unique L \<longleftrightarrow> mset L = mset (map int [0..<nat N])"
  by (auto simp: is_unique_mset)

text \<open>
  Claim C3. For every image size \<open>(W, H)\<close>, tile size \<open>(tw, th)\<close> and ordering,
  \<open>valid_input\<close> returns true exactly when \<open>W % tw == 0\<close>, \<open>H % th == 0\<close>, the
  ordering has \<open>(H // th) * (W // tw)\<close> entries and is a permutation of
  \<open>[0, (H // th) * (W // tw))\<close> (the four conditions are read as Python evaluates them, so
  they ask for divisors other than zero); and for a tile size other than zero, an
  ordering of another length, with a duplicate or with a value out of range, or a tile
  size that leaves a remainder, makes it return false.
\<close>

theorem valid_input_spec:
  "(valid_input (W, H) (tw, th) ordering' = Inr True \<longleftrightarrow>
      tw \<noteq> 0 \<and> th \<noteq> 0 \<and> W mod tw = 0 \<and> H mod th = 0 \<and>
      int (length ordering') = (H div th) * (W div tw) \<and>
      mset ordering' = mset (map int [0..<nat ((H div th) * (W div tw))])) \<and>
   (tw \<noteq> 0 \<and> th \<noteq> 0 \<and>
    (W mod tw \<noteq> 0 \<or> H mod th \<noteq> 0 \<or> int (length ordering') \<noteq> (H div th) * (W div tw) \<or>
     \<not> distinct ordering' \<or>
     (\<exists>v \<in> set ordering'. v < 0 \<or> (H div th) * (W div tw) \<le> v))
    \<longrightarrow> valid_input (W, H) (tw, th) ordering' = Inr False)"
proof (intro conjI impI)
  show "valid_input (W, H) (tw, th) ordering' = Inr True \<longleftrightarrow>
      tw \<noteq> 0 \<and> th \<noteq> 0 \<and> W mod tw = 0 \<and> H mod th = 0 \<and>
      int (length ordering') = (H div th) * (W div tw) \<and>
      mset ordering' = mset (map int [0..<nat ((H div th) * (W div tw))])"
    using is_unique_perm [of ordering' "(H div th) * (W div tw)"]
    by (auto simp: valid_input_True_iff)
next
  assume a: "tw \<noteq> 0 \<and> th \<noteq> 0 \<and>
    (W mod tw \<noteq> 0 \<or> H mod th \<noteq> 0 \<or> int (length ordering') \<noteq> (H div th) * (W div tw) \<or>
     \<not> distinct ordering' \<or>
     (\<exists>v \<in> set ordering'. v < 0 \<or> (H div th) * (W div tw) \<le> v))"
  have "\<not> (W mod tw = 0 \<and> H mod th = 0 \<and>
          int (length ordering') = (H div th) * (W div tw) \<and> is_unique ordering')"
  proof
    assume b: "W mod tw = 0 \<and> H mod th = 0 \<and>
          int (length ordering') = (H div th) * (W div tw) \<and> is_unique ordering'"
    then have "distinct ordering'" and "set ordering' = int ` {0..<length ordering'}"
      by (simp_all add: is_unique_distinct is_unique_set)
    with a b show False by auto
  qed
  with a show "valid_input (W, H) (tw, th) ordering' = Inr False"
    by (simp add: valid_input_nonzero)
qed

theorem valid_input_spec_witness:
  "valid_input (4, 4) (2, 2) [1, 0, 3, 2] = Inr True \<and>
   valid_input (6, 4) (4, 4) [0] = Inr False \<and>
   valid_input (4, 4) (2, 2) [0, 0, 1, 2] = Inr False \<and>
   valid_input (4, 4) (2, 2) [0, 1, 2] = Inr False \<and>
   valid_input (4, 4) (2, 2) [0, 1, 2, 4] = Inr False"
  using valid_input_spec [of 4 4 2 2 "[1, 0, 3, 2]"] valid_input_spec [of 6 4 4 4 "[0]"]
    valid_input_spec [of 4 4 2 2 "[0, 0, 1, 2]"] valid_input_spec [of 4 4 2 2 "[0, 1, 2]"]
    valid_input_spec [of 4 4 2 2 "[0, 1, 2, 4]"]
  by (simp add: upt_rec)

text \<open>
  Claim C10. \<open>valid_input\<close> has no check that the tile dimensions are positive: for the
  image size \<open>(4, 4)\<close>, the tile size \<open>(-2, -2)\<close> and the ordering \<open>[0, 1, 2, 3]\<close> it
  returns true, since the floored \<open>4 % -2\<close> is \<open>0\<close> and \<open>(4 // -2) * (4 // -2)\<close> is \<open>4\<close>.
\<close>

theorem valid_input_negative_tile:
  "valid_input (4, 4) (-2, -2) [0, 1, 2, 3] = Inr True \<and>
   (4::int) mod (-2) = 0 \<and> (4 div (-2)) * (4 div (-2)) = (4::int)"
  by (simp add: valid_input_def and_then_def py_floordiv_def py_mod_def is_unique_def enumerate_eq_zip upt_rec)

text \<open>
  Claim C5 asks that a tile size with a zero dimension be reported as invalid (\<open>False\<close>
  from the validator). The code divides before it compares: at the tile sizes \<open>(0, 2)\<close> and
  \<open>(2, 0)\<close> the validator raises \<open>ZeroDivisionError\<close>, and so does \<open>rearrange_tiles\<close>,
  which writes no file.
\<close>

theorem valid_input_zero_tile:
  "valid_input (4, 4) (0, 2) [0, 1, 2, 3] = Inl ZeroDivisionError \<and>
   valid_input (4, 4) (2, 0) [0, 1, 2, 3] = Inl ZeroDivisionError \<and>
   rearrange_tiles fs0 ''in.png'' (0, 2) [0, 1, 2, 3] ''out.png'' = (Inl ZeroDivisionError, fs0)"
  by (simp add: valid_input_def and_then_def py_floordiv_def py_mod_def rearrange_tiles_def rearrange_body_def
      Image_open_def fs0_def isize_def img0_def)

section \<open>The loops of the rearrangement\<close>

text \<open>
  A loop whose body never raises is a fold; the nested loops over rows and columns visit
  the cells in row-major order, cell \<open>k\<close> being column \<open>k mod cols\<close> of row \<open>k div cols\<close>.
\<close>

lemma for_loop_pure:
  "(\<And>x s. x \<in> set xs \<Longrightarrow> body x s = Inr (f x s)) \<Longrightarrow> for_loop xs body s = Inr (fold f xs s)"
  by (induction xs arbitrary: s) simp_all

lemma fold_upt_shift: "fold G [n..<n + m] s = fold (\<lambda>j. G (n + j)) [0..<m] s"
  by (induction m) simp_all

lemma cell_less: "r < R \<Longrightarrow> j < C \<Longrightarrow> r * C + j < R * (C::nat)"
proof -
  assume "r < R" and "j < C"
  then have "r * C + j < Suc r * C" by simp
  also have "\<dots> \<le> R * C" using \<open>r < R\<close> by (intro mult_le_mono1) simp
  finally show ?thesis .
qed

lemma fold_grid:
  "fold (\<lambda>i s. fold (\<lambda>j s. F j i s) [0..<C] s) [0..<R] s0 =
   fold (\<lambda>k s. F (k mod C) (k div C) s) [0..<R * C] s0"
proof (induction R)
  case 0
  show ?case by simp
next
  case (Suc R)
  have split: "[0..<Suc R * C] = [0..<R * C] @ [R * C..<R * C + C]"
    using upt_add_eq_append [of 0 "R * C" C] by (simp add: add.commute)
  have row: "fold (\<lambda>k s. F (k mod C) (k div C) s) [R * C..<R * C + C] s =
             fold (\<lambda>j s. F j R s) [0..<C] s" for s
  proof -
    have "fold (\<lambda>k s. F (k mod C) (k div C) s) [R * C..<R * C + C] s =
          fold (\<lambda>j s. F ((R * C + j) mod C) ((R * C + j) div C) s) [0..<C] s"
      by (rule fold_upt_shift)
    also have "\<dots> = fold (\<lambda>j s. F j R s) [0..<C] s"
      by (rule fold_cong) auto
    finally show ?thesis .
  qed
  show ?case by (simp add: split row Suc.IH del: mult_Suc)
qed

lemma fold_snoc_map: "fold (\<lambda>k acc. acc @ [g k]) ks acc = acc @ map g ks"
  by (induction ks arbitrary: acc) simp_all

lemma extract_tiles_flat:
  "extract_tiles im ts rows cols =
     map (\<lambda>k. get_tile im ts (int (k mod nat cols)) (int (k div nat cols)))
       [0..<nat rows * nat cols]"
proof -
  have "extract_tiles im ts rows cols =
        fold (\<lambda>i tiles. fold (\<lambda>j tiles. tiles @ [get_tile im ts (int j) (int i)])
               [0..<nat cols] tiles) [0..<nat rows] []"
    by (simp add: extract_tiles_def py_range_def fold_map comp_def)
  also have "\<dots> = fold (\<lambda>k tiles. tiles @
        [get_tile im ts (int (k mod nat cols)) (int (k div nat cols))]) [0..<nat rows * nat cols] []"
    by (rule fold_grid)
  finally show ?thesis by (simp add: fold_snoc_map)
qed

lemma py_index_nat: "k < length xs \<Longrightarrow> py_index xs (int k) = Inr (xs ! k)"
  by (simp add: py_index_def)

lemma build_out_tiles_ok:
  assumes len: "length tiles \<le> length ordering'"
    and rng: "\<And>k. k < length tiles \<Longrightarrow> 0 \<le> ordering' ! k \<and> ordering' ! k < int (length tiles)"
  shows "build_out_tiles tiles ordering' =
         Inr (map (\<lambda>k. tiles ! nat (ordering' ! k)) [0..<length tiles])"
proof -
  let ?body = "\<lambda>i out_tiles.
          and_then (py_index ordering' i) (\<lambda>v.
          and_then (py_index tiles v) (\<lambda>t. Inr (out_tiles @ [t])))"
  have step: "?body x s = Inr (s @ [tiles ! nat (ordering' ! nat x)])"
    if "x \<in> set (py_range (int (length tiles)))" for x s
  proof -
    from that obtain k where k: "x = int k" "k < length tiles"
      by (auto simp: py_range_def)
    with len have "py_index ordering' x = Inr (ordering' ! k)" by (simp add: py_index_nat)
    moreover from rng [OF k(2)]
    have "py_index tiles (ordering' ! k) = Inr (tiles ! nat (ordering' ! k))"
      by (simp add: py_index_def)
    ultimately show ?thesis using k by (simp add: and_then_def)
  qed
  have "build_out_tiles tiles ordering' =
        Inr (fold (\<lambda>x s. s @ [tiles ! nat (ordering' ! nat x)]) (py_range (int (length tiles))) [])"
    unfolding build_out_tiles_def by (rule for_loop_pure) (rule step)
  then show ?thesis by (simp add: fold_snoc_map py_range_def comp_def)
qed

lemma paste_tiles_flat:
  assumes len: "length out_tiles = nat rows * nat cols"
  shows "paste_tiles dst out_tiles (tw, th) rows cols =
         Inr (fold (\<lambda>k im. paste im (out_tiles ! k)
                      (tw * int (k mod nat cols), th * int (k div nat cols)))
                [0..<nat rows * nat cols] dst)"
proof -
  let ?inner = "\<lambda>i. (\<lambda>j out_image.
                  and_then (py_index out_tiles (i * cols + j)) (\<lambda>t.
                  Inr (paste out_image t (tw * j, th * i))))"
  let ?P = "\<lambda>j i im. paste im (out_tiles ! (i * nat cols + j)) (tw * int j, th * int i)"
  have inner: "?inner i j s = Inr (?P (nat j) (nat i) s)"
    if "i \<in> set (py_range rows)" "j \<in> set (py_range cols)" for i j s
  proof -
    from that obtain r c where rc: "i = int r" "r < nat rows" "j = int c" "c < nat cols"
      by (auto simp: py_range_def)
    then have "r * nat cols + c < length out_tiles" using len by (simp add: cell_less)
    moreover have "0 \<le> cols" using rc by linarith
    then have "i * cols + j = int (r * nat cols + c)" using rc by simp
    ultimately have "py_index out_tiles (i * cols + j) = Inr (out_tiles ! (r * nat cols + c))"
      by (simp only: py_index_nat)
    then show ?thesis using rc by (simp add: and_then_def)
  qed
  have row: "for_loop (py_range cols) (?inner i) s =
             Inr (fold (\<lambda>j. ?P (nat j) (nat i)) (py_range cols) s)"
    if "i \<in> set (py_range rows)" for i s
    by (rule for_loop_pure) (rule inner [OF that])
  have "paste_tiles dst out_tiles (tw, th) rows cols =
        Inr (fold (\<lambda>i. fold (\<lambda>j. ?P (nat j) (nat i)) (py_range cols)) (py_range rows) dst)"
    unfolding paste_tiles_def prod.case by (rule for_loop_pure) (rule row)
  also have "fold (\<lambda>i. fold (\<lambda>j. ?P (nat j) (nat i)) (py_range cols)) (py_range rows) dst =
             fold (\<lambda>i s. fold (\<lambda>j s. ?P j i s) [0..<nat cols] s) [0..<nat rows] dst"
    by (simp add: py_range_def fold_map comp_def)
  also have "\<dots> = fold (\<lambda>k s. ?P (k mod nat cols) (k div nat cols) s) [0..<nat rows * nat cols] dst"
    by (rule fold_grid)
  finally show ?thesis by simp
qed

section \<open>Pasting a grid of tiles\<close>

text \<open>
  Pastes keep the destination's mode and size. A pixel that exactly one pasted tile covers
  holds that tile's pixel; in a grid of equal tiles the tile is found by division.
\<close>

lemma paste_frame [simp]:
  "mode (paste dst im pos) = mode dst"
  "width (paste dst im pos) = width dst"
  "height (paste dst im pos) = height dst"
  by (simp_all add: paste_def split: prod.splits)

lemma fold_paste_frame:
  "mode (fold (\<lambda>k im. paste im (T k) (P k)) ks dst) = mode dst \<and>
   width (fold (\<lambda>k im. paste im (T k) (P k)) ks dst) = width dst \<and>
   height (fold (\<lambda>k im. paste im (T k) (P k)) ks dst) = height dst"
  by (induction ks arbitrary: dst) simp_all








section \<open>What a run of the rearrangement computes\<close>

lemma get_tile_crop:
  "get_tile im (tw, th) i j = crop im (tw * i, th * j, tw * (i + 1), th * (j + 1))"
  by (simp add: get_tile_def Let_def algebra_simps)

lemma get_tile_frame:
  "mode (get_tile im (tw, th) i j) = mode im"
  "width (get_tile im (tw, th) i j) = nat tw"
  "height (get_tile im (tw, th) i j) = nat th"
  by (simp_all add: get_tile_def crop_def Let_def)

lemma get_tile_pix:
  "pix (get_tile im (tw, th) i j) x y =
     (if 0 \<le> tw * i + x \<and> tw * i + x < int (width im) \<and>
         0 \<le> th * j + y \<and> th * j + y < int (height im)
      then pix im (tw * i + x) (th * j + y) else 0)"
  by (simp add: get_tile_def crop_def Let_def)

lemma nat_mult_le:
  assumes "0 \<le> a * (b::int)"
  shows "int (nat a * nat b) \<le> a * b" and "0 < nat a * nat b \<Longrightarrow> int (nat a * nat b) = a * b"
proof -
  show "int (nat a * nat b) \<le> a * b"
  proof (cases "0 \<le> a \<and> 0 \<le> b")
    case True
    then show ?thesis by simp
  next
    case False
    then have "nat a * nat b = 0" by auto
    then show ?thesis using assms by simp
  qed
  show "int (nat a * nat b) = a * b" if "0 < nat a * nat b"
  proof -
    from that have "0 < a" "0 < b" by (auto simp: zero_less_nat_eq)
    then show ?thesis by simp
  qed
qed

lemma valid_run:
  fixes im :: "('p::zero) image"
  assumes valid: "valid_input (isize im) (tw, th) ordering' = Inr True"
  defines "rows \<equiv> int (height im) div th" and "cols \<equiv> int (width im) div tw"
  defines "tiles \<equiv> extract_tiles im (tw, th) rows cols"
  defines "out_tiles \<equiv> map (\<lambda>k. tiles ! nat (ordering' ! k)) [0..<length tiles]"
  shows "length tiles = nat rows * nat cols"
    and "build_out_tiles tiles ordering' = Inr out_tiles"
    and "rearrange_body im dst (tw, th) ordering' = paste_tiles dst out_tiles (tw, th) rows cols"
    and "paste_tiles dst out_tiles (tw, th) rows cols =
           Inr (fold (\<lambda>k d. paste d (out_tiles ! k)
                        (tw * int (k mod nat cols), th * int (k div nat cols)))
                  [0..<nat rows * nat cols] dst)"
proof -
  from valid have nz: "tw \<noteq> 0" "th \<noteq> 0"
    and len: "int (length ordering') = rows * cols" and uniq: "is_unique ordering'"
    by (simp_all add: valid_input_True_iff isize_def rows_def cols_def)
  show lt: "length tiles = nat rows * nat cols"
    by (simp add: tiles_def extract_tiles_flat)
  have nonneg: "0 \<le> rows * cols" using len by (metis of_nat_0_le_iff)
  have le: "length tiles \<le> length ordering'"
    using nat_mult_le(1) [OF nonneg] len lt by linarith
  have rng: "0 \<le> ordering' ! k \<and> ordering' ! k < int (length tiles)" if "k < length tiles" for k
  proof -
    from that have "0 < nat rows * nat cols" using lt by linarith
    then have eq: "int (length tiles) = int (length ordering')"
      using nat_mult_le(2) [OF nonneg] len lt by simp
    then have "k < length ordering'" using that by simp
    then have "ordering' ! k \<in> set ordering'" by simp
    then have "ordering' ! k \<in> int ` {0..<length ordering'}"
      using is_unique_set [OF uniq] by simp
    then show ?thesis using eq by auto
  qed
  show bo: "build_out_tiles tiles ordering' = Inr out_tiles"
    unfolding out_tiles_def by (rule build_out_tiles_ok [OF le rng])
  show "rearrange_body im dst (tw, th) ordering' = paste_tiles dst out_tiles (tw, th) rows cols"
    using valid nz bo
    by (simp add: rearrange_body_def Let_def isize_def py_floordiv_def and_then_def
        rows_def [symmetric] cols_def [symmetric] tiles_def [symmetric])
  have "length out_tiles = nat rows * nat cols" by (simp add: out_tiles_def lt)
  then show "paste_tiles dst out_tiles (tw, th) rows cols =
           Inr (fold (\<lambda>k d. paste d (out_tiles ! k)
                        (tw * int (k mod nat cols), th * int (k div nat cols)))
                  [0..<nat rows * nat cols] dst)"
    by (rule paste_tiles_flat)
qed


section \<open>Errors, the saved file, and the tile extractor\<close>

lemma rearrange_body_invalid:
  assumes "valid_input (isize im) (tw, th) ordering' \<noteq> Inr True"
  shows "rearrange_body im dst (tw, th) ordering' =
           (if tw = 0 \<or> th = 0 then Inl ZeroDivisionError else Inl (ValueError invalid_message))"
proof (cases "tw = 0 \<or> th = 0")
  case True
  then show ?thesis
    by (auto simp: rearrange_body_def Let_def isize_def py_floordiv_def and_then_def)
next
  case False
  then have "valid_input (isize im) (tw, th) ordering' = Inr False"
    using assms by (simp add: isize_def valid_input_nonzero)
  then show ?thesis using False
    by (simp add: rearrange_body_def Let_def isize_def py_floordiv_def and_then_def)
qed

lemma rearrange_body_valid:
  fixes im :: "('p::zero) image"
  assumes "valid_input (isize im) (tw, th) ordering' = Inr True"
  shows "\<exists>out. rearrange_body im dst (tw, th) ordering' = Inr out \<and>
           mode out = mode dst \<and> width out = width dst \<and> height out = height dst"
  using valid_run(3,4) [OF assms, of dst] by (simp add: fold_paste_frame)

lemma rearrange_tiles_open:
  "fs image_path = Some im \<Longrightarrow>
   rearrange_tiles fs image_path tile_size ordering' out_path =
     (case rearrange_body im (Image_new (mode im) (isize im)) tile_size ordering' of
        Inl e \<Rightarrow> (Inl e, fs)
      | Inr out \<Rightarrow> (Inr (), fs(out_path \<mapsto> out)))"
  by (simp add: rearrange_tiles_def Image_open_def save_def Let_def split: sum.splits)

lemma rearrange_tiles_valid:
  fixes im :: "('p::zero) image"
  assumes "fs image_path = Some im"
    and "valid_input (isize im) tile_size ordering' = Inr True"
  shows "\<exists>out. rearrange_tiles fs image_path tile_size ordering' out_path =
                 (Inr (), fs(out_path \<mapsto> out)) \<and>
               rearrange_body im (Image_new (mode im) (isize im)) tile_size ordering' = Inr out"
proof -
  obtain tw th where ts: "tile_size = (tw, th)" by (cases tile_size)
  obtain out where "rearrange_body im (Image_new (mode im) (isize im)) tile_size ordering' = Inr out"
    using rearrange_body_valid [of im tw th ordering'] assms(2) by (auto simp: ts)
  then show ?thesis using assms(1) by (simp add: rearrange_tiles_open)
qed

lemma valid_example: "valid_input (isize img0) (2, 2) [1, 0, 3, 2] = Inr True"
  by (simp add: isize_def img0_def valid_input_nonzero is_unique_sort upt_rec)

lemma fs0_in: "fs0 ''in.png'' = Some img0"
  by (simp add: fs0_def)

lemma isize_img0: "isize img0 = (4, 4)"
  by (simp add: isize_def img0_def)

lemma rearrange_tiles_zero:
  assumes "fs image_path = Some im" and "tw = 0 \<or> th = 0"
  shows "rearrange_tiles fs image_path (tw, th) ordering' out_path = (Inl ZeroDivisionError, fs)"
proof -
  have "valid_input (isize im) (tw, th) ordering' \<noteq> Inr True"
    using assms(2) by (auto simp: valid_input_True_iff isize_def)
  then have "rearrange_body im (Image_new (mode im) (isize im)) (tw, th) ordering' =
             Inl ZeroDivisionError"
    using rearrange_body_invalid [of im tw th ordering'] assms(2) by simp
  then show ?thesis using assms(1) by (simp add: rearrange_tiles_open)
qed

text \<open>
  Claim C1. With the source file present, \<open>rearrange_tiles\<close> has three outcomes. A tile size
  with a zero dimension makes the division in \<open>rearrange_tiles\<close> itself raise
  \<open>ZeroDivisionError\<close>, before the validator is called; no file is written. For any other
  tile size the validator returns a truth value: on false, \<open>ValueError\<close> is raised with
  exactly the message "The tile size or ordering are not valid for the given image" and
  no file is written; on true, the call returns normally and writes the destination file.
\<close>

theorem rearrange_tiles_outcomes:
  fixes im :: "('p::zero) image"
  assumes "fs image_path = Some im"
  shows "(tw = 0 \<or> th = 0 \<longrightarrow>
            valid_input (isize im) (tw, th) ordering' = Inl ZeroDivisionError \<and>
            rearrange_tiles fs image_path (tw, th) ordering' out_path =
              (Inl ZeroDivisionError, fs)) \<and>
         (tw \<noteq> 0 \<and> th \<noteq> 0 \<and> valid_input (isize im) (tw, th) ordering' \<noteq> Inr True \<longrightarrow>
            valid_input (isize im) (tw, th) ordering' = Inr False \<and>
            rearrange_tiles fs image_path (tw, th) ordering' out_path =
              (Inl (ValueError ''The tile size or ordering are not valid for the given image''),
               fs)) \<and>
         (valid_input (isize im) (tw, th) ordering' = Inr True \<longrightarrow>
            tw \<noteq> 0 \<and> th \<noteq> 0 \<and>
            (\<exists>out. rearrange_tiles fs image_path (tw, th) ordering' out_path =
                     (Inr (), fs(out_path \<mapsto> out))))"
proof (intro conjI impI)
  let ?dst = "Image_new (mode im) (isize im) :: 'p image"
  {
    assume z: "tw = 0 \<or> th = 0"
    show "valid_input (isize im) (tw, th) ordering' = Inl ZeroDivisionError"
      using valid_input_zero [OF z] by (simp add: isize_def)
    show "rearrange_tiles fs image_path (tw, th) ordering' out_path = (Inl ZeroDivisionError, fs)"
      using assms z by (rule rearrange_tiles_zero)
  }
  {
    assume a: "tw \<noteq> 0 \<and> th \<noteq> 0 \<and> valid_input (isize im) (tw, th) ordering' \<noteq> Inr True"
    then show f: "valid_input (isize im) (tw, th) ordering' = Inr False"
      by (auto simp: isize_def valid_input_nonzero)
    have "rearrange_body im ?dst (tw, th) ordering' = Inl (ValueError invalid_message)"
      using rearrange_body_invalid [of im tw th ordering' ?dst] a by simp
    then show "rearrange_tiles fs image_path (tw, th) ordering' out_path =
              (Inl (ValueError ''The tile size or ordering are not valid for the given image''),
               fs)"
      using assms by (simp add: rearrange_tiles_open invalid_message_def)
  }
  {
    assume v: "valid_input (isize im) (tw, th) ordering' = Inr True"
    then show "tw \<noteq> 0" "th \<noteq> 0" by (simp_all add: valid_input_True_iff isize_def)
    show "\<exists>out. rearrange_tiles fs image_path (tw, th) ordering' out_path =
                     (Inr (), fs(out_path \<mapsto> out))"
      using rearrange_tiles_valid [of fs image_path im "(tw, th)" ordering' out_path] assms v
      by blast
  }
qed

theorem rearrange_tiles_outcomes_witness:
  "rearrange_tiles fs0 ''in.png'' (2, 0) [0, 1, 2, 3] ''out.png'' = (Inl ZeroDivisionError, fs0) \<and>
   rearrange_tiles fs0 ''in.png'' (3, 3) [0] ''out.png'' =
     (Inl (ValueError ''The tile size or ordering are not valid for the given image''), fs0) \<and>
   rearrange_tiles fs0 ''in.png'' (2, 2) [0, 0, 1, 2] ''out.png'' =
     (Inl (ValueError ''The tile size or ordering are not valid for the given image''), fs0) \<and>
   (\<exists>out. rearrange_tiles fs0 ''in.png'' (2, 2) [1, 0, 3, 2] ''out.png'' =
            (Inr (), fs0(''out.png'' \<mapsto> out)))"
proof -
  have a: "valid_input (isize img0) (3, 3) [0] \<noteq> Inr True"
    by (simp add: isize_img0 valid_input_nonzero)
  have b: "valid_input (isize img0) (2, 2) [0, 0, 1, 2] \<noteq> Inr True"
    by (simp add: isize_img0 valid_input_nonzero is_unique_sort upt_rec)
  show ?thesis
    using rearrange_tiles_outcomes [of fs0 "''in.png''" img0 2 0 "[0, 1, 2, 3]" "''out.png''"]
      rearrange_tiles_outcomes [of fs0 "''in.png''" img0 3 3 "[0]" "''out.png''"]
      rearrange_tiles_outcomes [of fs0 "''in.png''" img0 2 2 "[0, 0, 1, 2]" "''out.png''"]
      rearrange_tiles_outcomes [of fs0 "''in.png''" img0 2 2 "[1, 0, 3, 2]" "''out.png''"]
      a b fs0_in valid_example
    by simp
qed


text \<open>
  Claim C9. In every run that returns normally, the destination buffer is allocated with
  the mode and the size of the source image, and the image saved under the destination
  path has that same mode and size.
\<close>

theorem rearrange_tiles_preserves_frame:
  fixes im :: "('p::zero) image"
  assumes "fs image_path = Some im"
    and "rearrange_tiles fs image_path tile_size ordering' out_path = (Inr (), fs')"
  shows "\<exists>out. fs' = fs(out_path \<mapsto> out) \<and>
           mode out = mode im \<and> width out = width im \<and> height out = height im \<and>
           mode (Image_new (mode im) (isize im) :: 'p image) = mode im \<and>
           width (Image_new (mode im) (isize im) :: 'p image) = width im \<and>
           height (Image_new (mode im) (isize im) :: 'p image) = height im"
proof -
  obtain tw th where ts: "tile_size = (tw, th)" by (cases tile_size)
  let ?dst = "Image_new (mode im) (isize im) :: 'p image"
  have new: "mode ?dst = mode im" "width ?dst = width im" "height ?dst = height im"
    by (simp_all add: Image_new_def isize_def)
  have run: "(case rearrange_body im ?dst tile_size ordering' of
        Inl e \<Rightarrow> (Inl e, fs)
      | Inr out \<Rightarrow> (Inr (), fs(out_path \<mapsto> out))) = (Inr (), fs')"
    using assms by (simp add: rearrange_tiles_open)
  then obtain out where out: "rearrange_body im ?dst tile_size ordering' = Inr out"
    and fs': "fs' = fs(out_path \<mapsto> out)"
    by (auto split: sum.splits)
  have "valid_input (isize im) (tw, th) ordering' = Inr True"
  proof (rule ccontr)
    assume "valid_input (isize im) (tw, th) ordering' \<noteq> Inr True"
    then show False using rearrange_body_invalid [of im tw th ordering' ?dst] out
      by (simp add: ts split: if_splits)
  qed
  then have "mode out = mode ?dst \<and> width out = width ?dst \<and> height out = height ?dst"
    using rearrange_body_valid [of im tw th ordering' ?dst] out by (auto simp: ts)
  with fs' new show ?thesis by (intro exI [of _ out]) simp
qed

theorem rearrange_tiles_preserves_frame_witness:
  "\<exists>out. snd (rearrange_tiles fs0 ''in.png'' (2, 2) [1, 0, 3, 2] ''out.png'') =
            fs0(''out.png'' \<mapsto> out) \<and>
         mode out = ''L'' \<and> width out = 4 \<and> height out = 4"
proof -
  obtain out where run: "rearrange_tiles fs0 ''in.png'' (2, 2) [1, 0, 3, 2] ''out.png'' =
      (Inr (), fs0(''out.png'' \<mapsto> out))"
    using rearrange_tiles_valid [of fs0 "''in.png''" img0 "(2, 2)" "[1, 0, 3, 2]" "''out.png''"]
      fs0_in valid_example by blast
  show ?thesis
    using rearrange_tiles_preserves_frame
        [of fs0 "''in.png''" img0 "(2, 2)" "[1, 0, 3, 2]" "''out.png''"
          "fs0(''out.png'' \<mapsto> out)"]
      fs0_in run
    by (auto simp: img0_def)
qed

text \<open>
  Claim C8. For every image, tile size \<open>(tw, th)\<close> and column/row pair \<open>(i, j)\<close>, the
  tile extractor returns the crop of the half-open box with left edge \<open>tw * i\<close>, top edge
  \<open>th * j\<close>, right edge \<open>tw * (i + 1)\<close> and bottom edge \<open>th * (j + 1)\<close>: an image of its own
  (a value, which later pastes into another buffer cannot change) with the source's mode,
  the tile's size, and at \<open>(x, y)\<close> the source's pixel at \<open>(tw * i + x, th * j + y)\<close>, or
  zero where that point lies outside the source.
\<close>

theorem get_tile_spec:
  "get_tile im (tw, th) i j = crop im (tw * i, th * j, tw * (i + 1), th * (j + 1)) \<and>
   mode (get_tile im (tw, th) i j) = mode im \<and>
   width (get_tile im (tw, th) i j) = nat tw \<and>
   height (get_tile im (tw, th) i j) = nat th \<and>
   pix (get_tile im (tw, th) i j) x y =
     (if 0 \<le> tw * i + x \<and> tw * i + x < int (width im) \<and>
         0 \<le> th * j + y \<and> th * j + y < int (height im)
      then pix im (tw * i + x) (th * j + y) else 0)"
  by (simp only: get_tile_crop [symmetric] get_tile_frame get_tile_pix simp_thms)

section \<open>The pixels of the rearranged image\<close>












section \<open>The steps of a run\<close>






section \<open>The identity ordering\<close>






section \<open>A permutation and its inverse\<close>









end
